theory Spec2Isabelle
  imports Main
begin

section \<open>Python values used by the script\<close>

text \<open>
  The script \<^verbatim>\<open>send_test_email_with_screenshot.py\<close> is embedded function by function.
  Strings are \<^typ>\<open>string\<close>; an optional value (\<^verbatim>\<open>None\<close> or a value) is an
  \<^typ>\<open>'a option\<close>; an exception is a value \<open>Exn name text\<close> carrying the class name and
  \<^verbatim>\<open>str(e)\<close>, and a call that may raise returns \<open>exn + 'a\<close>.
\<close>

datatype exn = Exn string string

text \<open>\<^verbatim>\<open>f"{type(e).__name__}: {e}"\<close>\<close>

fun exn_msg :: "exn \<Rightarrow> string" where
  "exn_msg (Exn n t) = n @ '': '' @ t"

fun exn_text :: "exn \<Rightarrow> string" where
  "exn_text (Exn n t) = t"

text \<open>Truthiness of an optional string: \<^verbatim>\<open>None\<close> and \<^verbatim>\<open>""\<close> are false.\<close>

fun truthy :: "string option \<Rightarrow> bool" where
  "truthy None = False"
| "truthy (Some s) = (s \<noteq> [])"

text \<open>\<^verbatim>\<open>a or b\<close> on optional strings: the first operand when it is true, else the second.\<close>

definition por :: "string option \<Rightarrow> string option \<Rightarrow> string option" where
  "por a b = (if truthy a then a else b)"

text \<open>\<^verbatim>\<open>a or d\<close> where \<open>d\<close> is a string constant.\<close>

definition or_default :: "string option \<Rightarrow> string \<Rightarrow> string" where
  "or_default a d = (case a of None \<Rightarrow> d | Some s \<Rightarrow> if s \<noteq> [] then s else d)"

text \<open>
  \<^verbatim>\<open>s.replace(old, new)\<close>: occurrences of \<open>old\<close> are replaced from left to right,
  without overlap; an empty \<open>old\<close> matches before every character and at the end.
\<close>

function py_replace :: "string \<Rightarrow> string \<Rightarrow> string \<Rightarrow> string" where
  "py_replace old new s =
     (if old = [] then new @ concat (map (\<lambda>c. c # new) s)
      else if s = [] then []
      else if take (length old) s = old then new @ py_replace old new (drop (length old) s)
      else hd s # py_replace old new (tl s))"
  by pat_completeness auto
termination
  by (relation "measure (\<lambda>(old, new, s). length s)") auto

declare py_replace.simps [simp del]

text \<open>\<^verbatim>\<open>sep.join(xs)\<close>\<close>

fun py_join :: "string \<Rightarrow> string list \<Rightarrow> string" where
  "py_join sep [] = []"
| "py_join sep [x] = x"
| "py_join sep (x # y # ys) = x @ sep @ py_join sep (y # ys)"

text \<open>
  The whitespace \<^verbatim>\<open>str.strip()\<close> removes and \<^verbatim>\<open>float()\<close>, \<^verbatim>\<open>int()\<close> skip, as far
  as it is ASCII: tab, line feed, vertical tab, form feed, carriage return, the four
  separators 0x1C to 0x1F, and the space.
\<close>

definition is_space :: "char \<Rightarrow> bool" where
  "is_space c = (c \<in> {CHR 0x09, CHR 0x0A, CHR 0x0B, CHR 0x0C, CHR 0x0D,
                       CHR 0x1C, CHR 0x1D, CHR 0x1E, CHR 0x1F, CHR '' ''})"

definition py_strip :: "string \<Rightarrow> string" where
  "py_strip s = rev (dropWhile is_space (rev (dropWhile is_space s)))"

definition is_digit :: "char \<Rightarrow> bool" where
  "is_digit c = (c \<in> set ''0123456789'')"

definition digit_val :: "char \<Rightarrow> nat" where
  "digit_val c = of_char c - 48"

definition nat_of_digits :: "string \<Rightarrow> nat" where
  "nat_of_digits ds = foldl (\<lambda>n c. 10 * n + digit_val c) 0 ds"

text \<open>
  Numeric literals may group digits with underscores: an underscore stands after a digit
  and before a digit. \<open>drop_underscores False s\<close> removes them, or fails.
\<close>

fun drop_underscores :: "bool \<Rightarrow> string \<Rightarrow> string option" where
  "drop_underscores p [] = Some []"
| "drop_underscores p (c # cs) =
     (if c = CHR ''_'' then
        (if p \<and> cs \<noteq> [] \<and> is_digit (hd cs) then drop_underscores False cs else None)
      else map_option ((#) c) (drop_underscores (is_digit c) cs))"

definition drop_sign :: "string \<Rightarrow> bool \<times> string" where
  "drop_sign s = (case s of [] \<Rightarrow> (False, [])
                  | c # cs \<Rightarrow> if c = CHR ''-'' then (True, cs)
                             else if c = CHR ''+'' then (False, cs) else (False, s))"

text \<open>\<^verbatim>\<open>int(s)\<close> for a string, base ten: \<open>None\<close> is the \<^verbatim>\<open>ValueError\<close>.\<close>

definition py_int :: "string \<Rightarrow> int option" where
  "py_int s =
     (case drop_underscores False (py_strip s) of
        None \<Rightarrow> None
      | Some t \<Rightarrow>
          (case drop_sign t of (neg, ds) \<Rightarrow>
             if ds \<noteq> [] \<and> list_all is_digit ds
             then Some (if neg then - int (nat_of_digits ds) else int (nat_of_digits ds))
             else None))"

text \<open>
  \<^verbatim>\<open>float(s)\<close> for a string. The result is kept as the decimal read, \<open>Dec m e\<close> for
  \<open>m * 10 ^ e\<close> up to its sign, or as an infinity or a NaN; the script only compares it
  with zero. \<open>None\<close> is the \<^verbatim>\<open>ValueError\<close>.
\<close>

datatype py_float = Dec nat int | PInf | PNaN

definition lower_char :: "char \<Rightarrow> char" where
  "lower_char c =
     (if (65::nat) \<le> of_char c \<and> of_char c \<le> (90::nat) then char_of (of_char c + (32::nat)) else c)"

definition py_lower :: "string \<Rightarrow> string" where
  "py_lower s = map lower_char s"

text \<open>The exponent part: empty, or \<^verbatim>\<open>e\<close> or \<^verbatim>\<open>E\<close>, an optional sign and at least one digit.\<close>

definition parse_exponent :: "string \<Rightarrow> int option" where
  "parse_exponent s =
     (case s of [] \<Rightarrow> Some 0
      | c # cs \<Rightarrow>
          if c = CHR ''e'' \<or> c = CHR ''E'' then
            (case drop_sign cs of (neg, ds) \<Rightarrow>
               if ds \<noteq> [] \<and> list_all is_digit ds
               then Some (if neg then - int (nat_of_digits ds) else int (nat_of_digits ds))
               else None)
          else None)"

definition parse_decimal :: "string \<Rightarrow> py_float option" where
  "parse_decimal s =
     (let ip = takeWhile is_digit s;
          r1 = dropWhile is_digit s;
          has_point = (r1 \<noteq> [] \<and> hd r1 = CHR ''.'');
          r2 = (if has_point then tl r1 else r1);
          fp = (if has_point then takeWhile is_digit r2 else []);
          r3 = (if has_point then dropWhile is_digit r2 else r2)
      in if ip = [] \<and> fp = [] then None
         else (case parse_exponent r3 of
                 None \<Rightarrow> None
               | Some e \<Rightarrow> Some (Dec (nat_of_digits (ip @ fp)) (e - int (length fp)))))"

definition float_of_string :: "string \<Rightarrow> py_float option" where
  "float_of_string s =
     (case drop_underscores False (py_strip s) of
        None \<Rightarrow> None
      | Some t \<Rightarrow>
          (case drop_sign t of (neg, u) \<Rightarrow>
             if py_lower u = ''inf'' \<or> py_lower u = ''infinity'' then Some PInf
             else if py_lower u = ''nan'' then Some PNaN
             else parse_decimal u))"

text \<open>
  \<^verbatim>\<open>x == 0\<close> for the double nearest to the decimal (ties to even): the decimal is zero,
  or it is at most half the least positive double, \<open>2 ^ -1075\<close>.
\<close>

fun float_is_zero :: "py_float \<Rightarrow> bool" where
  "float_is_zero (Dec m e) = (m = 0 \<or> (e < 0 \<and> m * 2 ^ 1075 \<le> 10 ^ nat (- e)))"
| "float_is_zero PInf = False"
| "float_is_zero PNaN = False"

text \<open>\<^verbatim>\<open>str(n)\<close> for an integer.\<close>

fun str_nat :: "nat \<Rightarrow> string" where
  "str_nat n = (if n < 10 then [char_of (48 + n)] else str_nat (n div 10) @ [char_of (48 + n mod 10)])"

declare str_nat.simps [simp del]

definition str_int :: "int \<Rightarrow> string" where
  "str_int i = (if i < 0 then CHR ''-'' # str_nat (nat (- i)) else str_nat (nat i))"

text \<open>\<^verbatim>\<open>s.split(sep)\<close> for a separator of one character.\<close>

fun py_split :: "char \<Rightarrow> string \<Rightarrow> string list" where
  "py_split sep [] = [[]]"
| "py_split sep (c # cs) =
     (if c = sep then [] # py_split sep cs
      else (case py_split sep cs of [] \<Rightarrow> [[c]] | p # ps \<Rightarrow> (c # p) # ps))"

text \<open>
  \<^verbatim>\<open>html.escape(s)\<close>, quotes included: five replacements, the ampersand first.
\<close>

definition html_escape :: "string \<Rightarrow> string" where
  "html_escape s =
     py_replace [CHR 0x27] ''&#x27;''
       (py_replace [CHR 0x22] ''&quot;''
         (py_replace ''>'' ''&gt;''
           (py_replace ''<'' ''&lt;''
             (py_replace ''&'' ''&amp;'' s))))"

text \<open>
  Paths are strings. \<open>path_join d n\<close> is \<^verbatim>\<open>d / n\<close> for a file name \<open>n\<close> (the
  normalisation \<^verbatim>\<open>pathlib\<close> applies to \<open>d\<close> is not modelled: a path is only ever
  handed to the file system), \<open>path_name p\<close> is \<^verbatim>\<open>p.name\<close>, the last component.
\<close>

definition path_join :: "string \<Rightarrow> string \<Rightarrow> string" where
  "path_join d n = d @ ''/'' @ n"

definition path_name :: "string \<Rightarrow> string" where
  "path_name p = last (py_split CHR ''/'' p)"

section \<open>Defaults\<close>

definition DEFAULT_URLS :: "string list" where
  "DEFAULT_URLS =
     [''https://docs.newrelic.com/docs/apis/nerdgraph/examples/nerdgraph-cloud-integrations-api-tutorial/#list-enabled-provider-accounts'']"

definition DEFAULT_SELECTOR :: string where
  "DEFAULT_SELECTOR = ''h1''"

definition DEFAULT_EXPECTED_TEXT :: string where
  "DEFAULT_EXPECTED_TEXT = ''NerdGraph tutorial: Configure cloud integrations''"

definition DEFAULT_TIMEOUT_MS :: int where
  "DEFAULT_TIMEOUT_MS = 15000"

definition DEFAULT_OUT_DIR :: string where
  "DEFAULT_OUT_DIR = ''screenshots''"

definition DEFAULT_WINDOW :: string where
  "DEFAULT_WINDOW = ''1366x768''"

definition DEFAULT_HEADED :: bool where
  "DEFAULT_HEADED = False"

definition DEFAULT_CHECK_SIZE :: bool where
  "DEFAULT_CHECK_SIZE = False"

definition DEFAULT_MIN_WIDTH :: int where
  "DEFAULT_MIN_WIDTH = 10"

definition DEFAULT_MIN_HEIGHT :: int where
  "DEFAULT_MIN_HEIGHT = 5"

text \<open>
  A recipient parameter is annotated \<^verbatim>\<open>List[str]\<close>, but the default for To is the plain
  string \<^verbatim>\<open>"TO_EMAIL"\<close>; the value is therefore a string or a list of strings.
\<close>

datatype str_or_list = PyStr string | PyList "string list"

definition DEFAULT_EMAIL_TO :: str_or_list where
  "DEFAULT_EMAIL_TO = PyStr ''TO_EMAIL''"

definition DEFAULT_EMAIL_CC :: "string list" where
  "DEFAULT_EMAIL_CC = []"

definition DEFAULT_EMAIL_ATTACH_SCREENS :: bool where
  "DEFAULT_EMAIL_ATTACH_SCREENS = True"

definition DEFAULT_SMTP_PASS_ENV :: string where
  "DEFAULT_SMTP_PASS_ENV = ''SMTP_PASSWORD''"

definition DEFAULT_SMTP_USER_ENV :: string where
  "DEFAULT_SMTP_USER_ENV = ''SMTP_USERNAME''"

section \<open>Utilities\<close>

text \<open>\<^verbatim>\<open>sanitize(url)\<close>: seven \<^verbatim>\<open>str.replace\<close> calls, in the source's order.\<close>

definition sanitize :: "string \<Rightarrow> string" where
  "sanitize url =
     py_replace ''='' ''_''
       (py_replace ''&'' ''_''
         (py_replace '':'' ''_''
           (py_replace ''?'' ''_''
             (py_replace ''/'' ''_''
               (py_replace ''http://'' ''''
                 (py_replace ''https://'' '''' url))))))"

text \<open>
  The wording of the specification, for comparison with \<^const>\<open>sanitize\<close>: the scheme
  prefix is stripped, and each of the five separator characters becomes an underscore.
\<close>

definition underscore :: "char \<Rightarrow> char" where
  "underscore c = (if c \<in> set '':/?&='' then CHR ''_'' else c)"

definition strip_scheme :: "string \<Rightarrow> string" where
  "strip_scheme url =
     (if take 8 url = ''https://'' then drop 8 url
      else if take 7 url = ''http://'' then drop 7 url
      else url)"

definition sanitize_spec :: "string \<Rightarrow> string" where
  "sanitize_spec url = map underscore (strip_scheme url)"

text \<open>\<open>occurs old s\<close>: the string \<open>old\<close> stands somewhere in \<open>s\<close>.\<close>

fun occurs :: "string \<Rightarrow> string \<Rightarrow> bool" where
  "occurs old [] = (old = [])"
| "occurs old (c # cs) = (take (length old) (c # cs) = old \<or> occurs old cs)"

section \<open>The parsed command line\<close>

text \<open>
  The namespace \<^verbatim>\<open>parse_args()\<close> returns. An option without a default is \<^verbatim>\<open>None\<close>
  when omitted; a \<^verbatim>\<open>store_true\<close> flag is \<^verbatim>\<open>False\<close> when omitted.
\<close>

record args =
  a_urls :: "string list option"
  a_selector :: "string option"
  a_expected_text :: "string option"
  a_timeout_ms :: "int option"
  a_out_dir :: "string option"
  a_window :: "string option"
  a_headed :: bool
  a_check_size :: bool
  a_min_width :: "int option"
  a_min_height :: "int option"
  a_email_to :: "string list option"
  a_email_cc :: "string list option"
  a_email_subject :: "string option"
  a_email_attach_screens :: bool
  a_email_inline_images :: bool
  a_smtp_server :: string
  a_smtp_port :: int
  a_smtp_use_ssl :: bool
  a_smtp_user :: "string option"
  a_smtp_user_env :: string
  a_smtp_pass :: "string option"
  a_smtp_pass_env :: string
  a_smtp_from_name :: string

text \<open>The local variables \<^verbatim>\<open>main\<close> computes from the namespace (lines 467 to 493).\<close>

definition urls_of :: "args \<Rightarrow> string list" where
  "urls_of a = (case a_urls a of None \<Rightarrow> DEFAULT_URLS
                | Some us \<Rightarrow> if us \<noteq> [] then us else DEFAULT_URLS)"

definition selector_of :: "args \<Rightarrow> string" where
  "selector_of a = or_default (a_selector a) DEFAULT_SELECTOR"

definition expected_text_of :: "args \<Rightarrow> string" where
  "expected_text_of a = or_default (a_expected_text a) DEFAULT_EXPECTED_TEXT"

definition timeout_ms_of :: "args \<Rightarrow> int" where
  "timeout_ms_of a = (case a_timeout_ms a of None \<Rightarrow> DEFAULT_TIMEOUT_MS | Some t \<Rightarrow> t)"

definition out_dir_of :: "args \<Rightarrow> string" where
  "out_dir_of a = or_default (a_out_dir a) DEFAULT_OUT_DIR"

definition window_of :: "args \<Rightarrow> string" where
  "window_of a = or_default (a_window a) DEFAULT_WINDOW"

definition headed_of :: "args \<Rightarrow> bool" where
  "headed_of a = (a_headed a \<or> DEFAULT_HEADED)"

definition check_size_of :: "args \<Rightarrow> bool" where
  "check_size_of a = (a_check_size a \<or> DEFAULT_CHECK_SIZE)"

definition min_w_of :: "args \<Rightarrow> int" where
  "min_w_of a = (case a_min_width a of None \<Rightarrow> DEFAULT_MIN_WIDTH | Some n \<Rightarrow> n)"

definition min_h_of :: "args \<Rightarrow> int" where
  "min_h_of a = (case a_min_height a of None \<Rightarrow> DEFAULT_MIN_HEIGHT | Some n \<Rightarrow> n)"

definition email_to_of :: "args \<Rightarrow> str_or_list" where
  "email_to_of a = (case a_email_to a of None \<Rightarrow> DEFAULT_EMAIL_TO
                    | Some xs \<Rightarrow> if xs \<noteq> [] then PyList xs else DEFAULT_EMAIL_TO)"

definition email_cc_of :: "args \<Rightarrow> string list" where
  "email_cc_of a = (case a_email_cc a of None \<Rightarrow> DEFAULT_EMAIL_CC
                    | Some xs \<Rightarrow> if xs \<noteq> [] then xs else DEFAULT_EMAIL_CC)"

definition email_attach_screens_of :: "args \<Rightarrow> bool" where
  "email_attach_screens_of a = (a_email_attach_screens a \<or> DEFAULT_EMAIL_ATTACH_SCREENS)"

text \<open>
  The credentials: the command line, else the named environment variable, else the
  default environment variable. The environment is a map from names to values.
\<close>

definition smtp_user_of :: "args \<Rightarrow> (string \<rightharpoonup> string) \<Rightarrow> string option" where
  "smtp_user_of a env =
     por (por (a_smtp_user a) (env (a_smtp_user_env a))) (env DEFAULT_SMTP_USER_ENV)"

definition smtp_pass_of :: "args \<Rightarrow> (string \<rightharpoonup> string) \<Rightarrow> string option" where
  "smtp_pass_of a env =
     por (por (a_smtp_pass a) (env (a_smtp_pass_env a))) (env DEFAULT_SMTP_PASS_ENV)"

section \<open>The page validator\<close>

text \<open>
  The browser is outside the script. What it answers during the visit of one URL is a
  record: each call of the driver either raises or returns a value. A value a script
  returns to Python is a string or \<^verbatim>\<open>None\<close>.
\<close>

datatype pyval = PStr string | PNone

record visit =
  v_get :: "exn option"
  v_find :: "exn option"
  v_displayed :: "exn + bool"
  v_size :: "exn + (string \<rightharpoonup> int)"
  v_css :: "exn + (string \<rightharpoonup> pyval)"
  v_text :: "exn + string option"
  v_stamp :: string
  v_scroll_w :: "exn + int option"
  v_scroll_h :: "exn + int option"
  v_resize :: "int \<Rightarrow> int \<Rightarrow> exn option"
  v_save :: "string \<Rightarrow> exn option"
  v_stamp_fail :: string

text \<open>
  \<open>v_get\<close> is \<^verbatim>\<open>driver.get(url)\<close> and \<open>v_find\<close> the wait for the selector (an
  exception, or nothing); \<open>v_displayed\<close>, \<open>v_size\<close> (\<^verbatim>\<open>element.size or {}\<close>), \<open>v_css\<close>
  (the computed style, \<^verbatim>\<open>or {}\<close>) and \<open>v_text\<close> are what the element answers;
  \<open>v_scroll_w\<close>, \<open>v_scroll_h\<close>, \<open>v_resize\<close> and \<open>v_save\<close> are the calls of
  \<^verbatim>\<open>fullpage_screenshot\<close>; \<open>v_stamp\<close> and \<open>v_stamp_fail\<close> are \<^verbatim>\<open>stamp()\<close> on the
  success path and in the handler.
\<close>

fun bnd :: "'e + 'a \<Rightarrow> ('a \<Rightarrow> 'e + 'b) \<Rightarrow> 'e + 'b" where
  "bnd (Inl e) f = Inl e"
| "bnd (Inr x) f = f x"

fun chk :: "'e option \<Rightarrow> 'e + 'b \<Rightarrow> 'e + 'b" where
  "chk (Some e) k = Inl e"
| "chk None k = k"

definition assertion_error :: "string \<Rightarrow> exn" where
  "assertion_error msg = Exn ''AssertionError'' msg"

definition size_get :: "(string \<rightharpoonup> int) \<Rightarrow> string \<Rightarrow> int" where
  "size_get sz k = (case sz k of None \<Rightarrow> 0 | Some n \<Rightarrow> n)"

text \<open>Lines 122 to 132: the size assertions, when \<^verbatim>\<open>check_size\<close> is set.\<close>

definition size_check :: "visit \<Rightarrow> string \<Rightarrow> bool \<Rightarrow> int \<Rightarrow> int \<Rightarrow> exn + unit" where
  "size_check v url check_size min_w min_h =
     (if check_size then
        bnd (v_size v) (\<lambda>sz.
          if size_get sz ''width'' \<le> min_w then
            Inl (assertion_error (''Element width too small ('' @ str_int (size_get sz ''width'')
                   @ ''px) on '' @ url @ '' (min '' @ str_int min_w @ '')''))
          else if size_get sz ''height'' \<le> min_h then
            Inl (assertion_error (''Element height too small ('' @ str_int (size_get sz ''height'')
                   @ ''px) on '' @ url @ '' (min '' @ str_int min_h @ '')''))
          else Inr ())
      else Inr ())"

text \<open>
  Lines 155 to 159: \<^verbatim>\<open>float(css.get("opacity", "1")) == 0\<close> inside a handler for
  \<^verbatim>\<open>ValueError\<close> and \<^verbatim>\<open>TypeError\<close>. \<^verbatim>\<open>float(None)\<close> is the \<^verbatim>\<open>TypeError\<close>.
\<close>

definition opacity_value :: "(string \<rightharpoonup> pyval) \<Rightarrow> pyval" where
  "opacity_value css = (case css ''opacity'' of None \<Rightarrow> PStr ''1'' | Some x \<Rightarrow> x)"

definition opacity_is_zero :: "(string \<rightharpoonup> pyval) \<Rightarrow> bool" where
  "opacity_is_zero css =
     (case opacity_value css of
        PNone \<Rightarrow> False
      | PStr s \<Rightarrow> (case float_of_string s of None \<Rightarrow> False | Some f \<Rightarrow> float_is_zero f))"

definition css_check :: "(string \<rightharpoonup> pyval) \<Rightarrow> string \<Rightarrow> exn + unit" where
  "css_check css url =
     (if css ''display'' = Some (PStr ''none'') then
        Inl (assertion_error (''Element is display:none on '' @ url))
      else if css ''visibility'' = Some (PStr ''hidden'') then
        Inl (assertion_error (''Element is visibility:hidden on '' @ url))
      else if opacity_is_zero css then
        Inl (assertion_error (''Element opacity 0 (invisible) on '' @ url))
      else Inr ())"

definition text_check :: "string option \<Rightarrow> string \<Rightarrow> string \<Rightarrow> exn + unit" where
  "text_check t url expected_text =
     (let text = py_strip (case t of None \<Rightarrow> [] | Some s \<Rightarrow> s)
      in if text \<noteq> expected_text then
           Inl (assertion_error (''Text mismatch on '' @ url @ ''. Expected '' @ [CHR 0x22]
                  @ expected_text @ [CHR 0x22] @ '', got '' @ [CHR 0x22] @ text @ [CHR 0x22]))
         else Inr ())"

text \<open>
  \<^verbatim>\<open>validate_ui\<close>: it returns normally, or raises. The waits (the settling delay, the
  timeout handed to the driver) are the browser's.
\<close>

definition validate_ui ::
  "visit \<Rightarrow> string \<Rightarrow> string \<Rightarrow> string \<Rightarrow> int \<Rightarrow> bool \<Rightarrow> int \<Rightarrow> int \<Rightarrow> exn + unit" where
  "validate_ui v url selector expected_text timeout_ms check_size min_w min_h =
     chk (v_get v)
       (chk (v_find v)
         (bnd (v_displayed v) (\<lambda>displayed.
            if \<not> displayed then
              Inl (assertion_error (''Element '' @ selector @ '' is NOT visible on '' @ url))
            else
              bnd (size_check v url check_size min_w min_h) (\<lambda>_.
                bnd (v_css v) (\<lambda>css.
                  bnd (css_check css url) (\<lambda>_.
                    bnd (v_text v) (\<lambda>t. text_check t url expected_text)))))))"

section \<open>The screenshot capturer\<close>

definition fullpage_screenshot :: "visit \<Rightarrow> string \<Rightarrow> int \<Rightarrow> int \<Rightarrow> exn + unit" where
  "fullpage_screenshot v out_path min_w min_h =
     bnd (v_scroll_w v) (\<lambda>width.
       bnd (v_scroll_h v) (\<lambda>height.
         chk (v_resize v (max (case width of None \<Rightarrow> 0 | Some n \<Rightarrow> n) min_w)
                         (max (case height of None \<Rightarrow> 0 | Some n \<Rightarrow> n) min_h))
           (chk (v_save v out_path) (Inr ()))))"

section \<open>The run loop\<close>

record url_result =
  r_url :: string
  r_ok :: bool
  r_message :: string
  r_screenshot_path :: "string option"
  r_failure_screenshot_path :: "string option"

text \<open>The parameters of the checks, the same for every URL of a run.\<close>

record check =
  c_selector :: string
  c_expected_text :: string
  c_timeout_ms :: int
  c_check_size :: bool
  c_min_w :: int
  c_min_h :: int
  c_out_dir :: string

definition check_of :: "args \<Rightarrow> check" where
  "check_of a =
     \<lparr>c_selector = selector_of a, c_expected_text = expected_text_of a,
      c_timeout_ms = timeout_ms_of a, c_check_size = check_size_of a,
      c_min_w = min_w_of a, c_min_h = min_h_of a, c_out_dir = out_dir_of a\<rparr>"

text \<open>
  Lines 515 to 529, the body of the \<^verbatim>\<open>try\<close>: the validation, then the screenshot; the
  path of the screenshot when neither raises.
\<close>

definition try_block :: "visit \<Rightarrow> check \<Rightarrow> string \<Rightarrow> exn + string" where
  "try_block v c url =
     bnd (validate_ui v url (c_selector c) (c_expected_text c) (c_timeout_ms c)
            (c_check_size c) (c_min_w c) (c_min_h c)) (\<lambda>_.
       let fname = path_join (c_out_dir c) (v_stamp v @ ''_'' @ sanitize url @ ''.png'')
       in bnd (fullpage_screenshot v fname (c_min_w c) (c_min_h c)) (\<lambda>_. Inr fname))"

text \<open>
  The state of the loop: \<^verbatim>\<open>results\<close>, \<^verbatim>\<open>overall_ok\<close> and what was printed to the error
  stream.
\<close>

record loop_state =
  ls_results :: "url_result list"
  ls_overall_ok :: bool
  ls_err :: "string list"

text \<open>
  One iteration (lines 511 to 542). In the handler the failure path is assigned before
  \<^verbatim>\<open>driver.save_screenshot\<close> is called and an exception of that call is discarded, so
  the result carries the path whatever the call does.
\<close>

definition loop_body :: "visit \<Rightarrow> check \<Rightarrow> string \<Rightarrow> loop_state \<Rightarrow> loop_state" where
  "loop_body v c url st =
     (case try_block v c url of
        Inr fname \<Rightarrow>
          st\<lparr>ls_results := ls_results st @
               [\<lparr>r_url = url, r_ok = True, r_message = ''OK'',
                 r_screenshot_path = Some fname, r_failure_screenshot_path = None\<rparr>]\<rparr>
      | Inl e \<Rightarrow>
          st\<lparr>ls_overall_ok := False,
             ls_err := ls_err st @ [''FAILURE: '' @ exn_msg e],
             ls_results := ls_results st @
               [\<lparr>r_url = url, r_ok = False, r_message = exn_msg e,
                 r_screenshot_path = None,
                 r_failure_screenshot_path =
                   Some (path_join (c_out_dir c)
                          (v_stamp_fail v @ ''_'' @ sanitize url @ ''_failure.png''))\<rparr>]\<rparr>)"

text \<open>The \<^verbatim>\<open>for\<close> loop: the \<open>i\<close>-th iteration meets the \<open>i\<close>-th visit.\<close>

fun run_loop :: "(nat \<Rightarrow> visit) \<Rightarrow> check \<Rightarrow> nat \<Rightarrow> string list \<Rightarrow> loop_state \<Rightarrow> loop_state" where
  "run_loop vs c i [] st = st"
| "run_loop vs c i (url # urls) st = run_loop vs c (Suc i) urls (loop_body (vs i) c url st)"

definition init_state :: loop_state where
  "init_state = \<lparr>ls_results = [], ls_overall_ok = True, ls_err = []\<rparr>"

section \<open>The report and the message\<close>

text \<open>
  The HTML body is kept as its variable parts: the status words, the time and the rows
  of the table. Each row holds the escaped URL, the badge, the escaped message and the
  source of the image cell.
\<close>

record row =
  row_url :: string
  row_status_color :: string
  row_status_text :: string
  row_msg :: string
  row_shot_cell :: string

record report_body =
  b_status_text :: string
  b_when :: string
  b_rows :: "row list"
  b_overall_color :: string
  b_overall_label :: string

text \<open>
  A part of the message beyond the body: an inline image with its content id, or a plain
  attachment. Both carry the path of the file they were read from.
\<close>

datatype part =
    is_inline: InlinePart (p_path: string) (p_cid: string) (p_subtype: string) (p_data: string)
  | AttachPart (p_path: string) (p_maintype: string) (p_subtype: string) (p_data: string)

text \<open>
  The message: \<open>m_from\<close> is the pair handed to \<^verbatim>\<open>formataddr\<close>, \<open>m_cc\<close> is \<^verbatim>\<open>None\<close>
  when no Cc header is set.
\<close>

record message =
  m_subject :: string
  m_from :: "string \<times> string"
  m_to :: string
  m_cc :: "string option"
  m_html :: report_body
  m_parts :: "part list"

record smtp_request =
  q_use_ssl :: bool
  q_server :: string
  q_port :: int
  q_user :: string
  q_password :: string
  q_envelope_from :: string
  q_recipients :: "string list"
  q_message :: message

section \<open>The environment of a run\<close>

text \<open>
  Everything the script asks of the outside: the environment variables, the browser's
  answers at each iteration, the file system at the time of the report
  (\<^verbatim>\<open>Path.resolve\<close>, \<^verbatim>\<open>exists\<close>, \<^verbatim>\<open>is_file\<close>, reading a file), the guessed content
  types, the generated content ids (by row), the clock, the address-list parser
  \<^verbatim>\<open>email.utils.getaddresses\<close> and the SMTP session (connect, log in, send: an exception
  or nothing). A call is given an exception where a handler of the script can meet it;
  \<^verbatim>\<open>mkdir\<close>, the start of the browser and \<^verbatim>\<open>driver.quit\<close>, which no handler covers,
  return.
\<close>

record world =
  w_env :: "string \<rightharpoonup> string"
  w_visit :: "nat \<Rightarrow> visit"
  w_resolve :: "string \<Rightarrow> exn + string"
  w_exists :: "string \<Rightarrow> bool"
  w_is_file :: "string \<Rightarrow> bool"
  w_read :: "string \<Rightarrow> exn + string"
  w_guess_type :: "string \<Rightarrow> string option"
  w_msgid :: "nat \<Rightarrow> string"
  w_now_hm :: string
  w_now_report :: string
  w_getaddresses :: "string list \<Rightarrow> (string \<times> string) list"
  w_smtp :: "smtp_request \<Rightarrow> exn option"

section \<open>The report composer\<close>

text \<open>A \<^verbatim>\<open>dict\<close> keeps its keys in the order of their first insertion.\<close>

fun dict_set :: "'k \<Rightarrow> 'v \<Rightarrow> ('k \<times> 'v) list \<Rightarrow> ('k \<times> 'v) list" where
  "dict_set k v [] = [(k, v)]"
| "dict_set k v ((k', v') # kvs) =
     (if k' = k then (k, v) # kvs else (k', v') # dict_set k v kvs)"

definition guess_mime_type :: "world \<Rightarrow> string \<Rightarrow> string" where
  "guess_mime_type w path =
     (case w_guess_type w path of None \<Rightarrow> ''application/octet-stream''
      | Some t \<Rightarrow> if t \<noteq> [] then t else ''application/octet-stream'')"

text \<open>\<^verbatim>\<open>r.screenshot_path or r.failure_screenshot_path\<close>: a path is always true.\<close>

definition shot_of :: "url_result \<Rightarrow> string option" where
  "shot_of r = (case r_screenshot_path r of Some p \<Rightarrow> Some p
                | None \<Rightarrow> r_failure_screenshot_path r)"

definition mk_row :: "url_result \<Rightarrow> string \<Rightarrow> row" where
  "mk_row r cell =
     \<lparr>row_url = html_escape (r_url r),
      row_status_color = (if r_ok r then ''#28a745'' else ''#dc3545''),
      row_status_text = (if r_ok r then ''PASS'' else ''FAIL''),
      row_msg = html_escape (r_message r),
      row_shot_cell = cell\<rparr>"

text \<open>
  Lines 289 to 317: one row per result. With inline images the cell refers to a fresh
  content id and the resolved path is entered into the map; nothing is asked of the file
  system but the resolution of the path.
\<close>

fun build_rows ::
  "world \<Rightarrow> bool \<Rightarrow> nat \<Rightarrow> url_result list \<Rightarrow> row list \<times> (string \<times> string) list
     \<Rightarrow> exn + (row list \<times> (string \<times> string) list)" where
  "build_rows w inline_images i [] acc = Inr acc"
| "build_rows w inline_images i (r # rs) (rows, d) =
     (case shot_of r of
        Some shot \<Rightarrow>
          if inline_images then
            (case w_resolve w shot of
               Inl e \<Rightarrow> Inl e
             | Inr rp \<Rightarrow>
                 build_rows w inline_images (Suc i) rs
                   (rows @ [mk_row r (''cid:'' @ w_msgid w i)], dict_set rp (w_msgid w i) d))
          else
            build_rows w inline_images (Suc i) rs
              (rows @ [mk_row r (html_escape (path_name shot) @ '' (attached)'')], d)
      | None \<Rightarrow> build_rows w inline_images (Suc i) rs (rows @ [mk_row r ''(none)''], d))"

definition build_email_html_and_inline_map ::
  "world \<Rightarrow> url_result list \<Rightarrow> bool \<Rightarrow> bool \<Rightarrow> exn + (report_body \<times> (string \<times> string) list)" where
  "build_email_html_and_inline_map w results overall_ok inline_images =
     bnd (build_rows w inline_images 0 results ([], [])) (\<lambda>(rows, d).
       Inr (\<lparr>b_status_text = (if overall_ok then ''PASS'' else ''FAIL''),
             b_when = w_now_report w,
             b_rows = rows,
             b_overall_color = (if overall_ok then ''#28a745'' else ''#dc3545''),
             b_overall_label = (if overall_ok then ''ALL PASSED'' else ''SOME FAILURES'')\<rparr>, d))"

text \<open>\<^verbatim>\<open>", ".join(email_to) if email_to else ""\<close>: joining a string joins its characters.\<close>

definition to_header :: "str_or_list \<Rightarrow> string" where
  "to_header email_to =
     (case email_to of
        PyStr s \<Rightarrow> if s \<noteq> [] then py_join '', '' (map (\<lambda>c. [c]) s) else []
      | PyList xs \<Rightarrow> if xs \<noteq> [] then py_join '', '' xs else [])"

definition cc_header :: "string list \<Rightarrow> string option" where
  "cc_header email_cc = (if email_cc \<noteq> [] then Some (py_join '', '' email_cc) else None)"

text \<open>\<^verbatim>\<open>set(p.resolve() for p in keys)\<close>: the first path that does not resolve raises.\<close>

fun resolve_all :: "world \<Rightarrow> string list \<Rightarrow> exn + string list" where
  "resolve_all w [] = Inr []"
| "resolve_all w (p # ps) =
     bnd (w_resolve w p) (\<lambda>rp. bnd (resolve_all w ps) (\<lambda>rps. Inr (rp # rps)))"

text \<open>
  Lines 384 to 397: every step for one inline image stands in a \<^verbatim>\<open>try\<close>; a file that
  cannot be read, or a path that is no key of the map, is reported and left out. The
  accumulator holds the error stream and the parts attached so far.
\<close>

fun embed_inline ::
  "world \<Rightarrow> (string \<times> string) list \<Rightarrow> string list \<Rightarrow> string list \<times> part list
     \<Rightarrow> string list \<times> part list" where
  "embed_inline w d [] acc = acc"
| "embed_inline w d (path # ps) (log, parts) =
     (case w_read w path of
        Inl e \<Rightarrow>
          embed_inline w d ps
            (log @ [''[Embed Inline] Failed: '' @ path @ '' -> '' @ exn_text e], parts)
      | Inr img_data \<Rightarrow>
          (case map_of d path of
             None \<Rightarrow>
               embed_inline w d ps
                 (log @ [''[Embed Inline] Failed: '' @ path @ '' -> PosixPath(''
                          @ [CHR 0x27] @ path @ [CHR 0x27] @ '')''], parts)
           | Some cid \<Rightarrow>
               embed_inline w d ps
                 (log, parts @
                   [InlinePart path cid
                      (if CHR ''/'' \<in> set (guess_mime_type w path)
                       then tl (dropWhile (\<lambda>c. c \<noteq> CHR ''/'') (guess_mime_type w path))
                       else ''png'')
                      img_data])))"

text \<open>
  Lines 400 to 420: the plain attachments. The resolution of the path and the split of
  the content type stand outside the \<^verbatim>\<open>try\<close>, so they raise out of the function; a
  file that cannot be read is reported and left out.
\<close>

fun attach_files ::
  "world \<Rightarrow> string list \<Rightarrow> string list \<Rightarrow> string list \<times> part list
     \<Rightarrow> string list \<times> (exn + part list)" where
  "attach_files w inline_paths [] (log, parts) = (log, Inr parts)"
| "attach_files w inline_paths (path # ps) (log, parts) =
     (case w_resolve w path of
        Inl e \<Rightarrow> (log, Inl e)
      | Inr rp \<Rightarrow>
          if rp \<in> set inline_paths then attach_files w inline_paths ps (log, parts)
          else if CHR ''/'' \<notin> set (guess_mime_type w rp) then
            (log, Inl (Exn ''ValueError'' ''not enough values to unpack (expected 2, got 1)''))
          else
            (case w_read w rp of
               Inl e \<Rightarrow>
                 attach_files w inline_paths ps
                   (log @ [''[Attach] Failed: '' @ rp @ '' -> '' @ exn_text e], parts)
             | Inr file_data \<Rightarrow>
                 attach_files w inline_paths ps
                   (log, parts @
                     [AttachPart rp
                        (takeWhile (\<lambda>c. c \<noteq> CHR ''/'') (guess_mime_type w rp))
                        (tl (dropWhile (\<lambda>c. c \<noteq> CHR ''/'') (guess_mime_type w rp)))
                        file_data])))"

text \<open>
  The set of inline paths is iterated in an order Python does not fix; here it is the
  order of first occurrence.
\<close>

definition inline_paths_set :: "world \<Rightarrow> (string \<times> string) list \<Rightarrow> exn + string list" where
  "inline_paths_set w d = bnd (resolve_all w (map fst d)) (\<lambda>rps. Inr (remdups rps))"

text \<open>
  \<^verbatim>\<open>compose_email_message\<close>: what it prints to the error stream, and the message or the
  exception it raises.
\<close>

definition compose_email_message ::
  "world \<Rightarrow> string \<Rightarrow> string \<Rightarrow> str_or_list \<Rightarrow> string list \<Rightarrow> string \<Rightarrow> report_body
     \<Rightarrow> string list \<Rightarrow> (string \<times> string) list \<Rightarrow> string list \<times> (exn + message)" where
  "compose_email_message w smtp_from_name smtp_user email_to email_cc subject html_body
       attachments inline_cid_by_path =
     (case inline_paths_set w inline_cid_by_path of
        Inl e \<Rightarrow> ([], Inl e)
      | Inr inline_paths \<Rightarrow>
          (case attach_files w inline_paths attachments
                  (embed_inline w inline_cid_by_path inline_paths ([], [])) of
             (log, Inl e) \<Rightarrow> (log, Inl e)
           | (log, Inr parts) \<Rightarrow>
               (log, Inr \<lparr>m_subject = subject, m_from = (smtp_from_name, smtp_user),
                          m_to = to_header email_to, m_cc = cc_header email_cc,
                          m_html = html_body, m_parts = parts\<rparr>)))"

section \<open>The mail sender\<close>

text \<open>Lines 434 to 437: the addresses of the To header, then those of the Cc header.\<close>

definition recipients_of :: "(string list \<Rightarrow> (string \<times> string) list) \<Rightarrow> message \<Rightarrow> string list" where
  "recipients_of getaddresses msg =
     filter (\<lambda>addr. addr \<noteq> []) (map snd (getaddresses [m_to msg]))
     @ filter (\<lambda>addr. addr \<noteq> [])
         (map snd (getaddresses (case m_cc msg of None \<Rightarrow> [] | Some c \<Rightarrow> [c])))"

text \<open>
  \<^verbatim>\<open>send_via_smtp\<close>: the error stream, the SMTP sessions opened (none or one) and the
  exception the session raised, if any.
\<close>

definition send_via_smtp ::
  "world \<Rightarrow> message \<Rightarrow> string \<Rightarrow> int \<Rightarrow> string \<Rightarrow> string \<Rightarrow> bool
     \<Rightarrow> string list \<times> smtp_request list \<times> exn option" where
  "send_via_smtp w msg smtp_server smtp_port smtp_user smtp_password use_ssl =
     (let recipients = recipients_of (w_getaddresses w) msg
      in if recipients = [] then
           ([''WARNING: No recipients found in To/Cc. Email will not be sent.''], [], None)
         else
           (let req = \<lparr>q_use_ssl = use_ssl, q_server = smtp_server, q_port = smtp_port,
                       q_user = smtp_user, q_password = smtp_password,
                       q_envelope_from = smtp_user, q_recipients = recipients,
                       q_message = msg\<rparr>
            in ([], [req], w_smtp w req)))"

text \<open>
  \<^verbatim>\<open>email.utils.getaddresses\<close> is the library's. Where a theorem needs its value, this is
  what it answers on header values made of atoms (no special character
  \<^verbatim>\<open>()<>@,:;."[]\<close>, no white space) separated by commas, with blanks around the commas:
  each atom is an address without a display name. Elsewhere the model gives no answer.
\<close>

definition atom_char :: "char \<Rightarrow> bool" where
  "atom_char c = (c \<notin> set ''()<>@,:;.[]'' \<and> c \<noteq> CHR 0x22 \<and> c \<notin> {CHR '' '', CHR 0x09, CHR 0x0D, CHR 0x0A})"

definition strip_lws :: "string \<Rightarrow> string" where
  "strip_lws s =
     rev (dropWhile (\<lambda>c. c \<in> {CHR '' '', CHR 0x09, CHR 0x0D, CHR 0x0A})
       (rev (dropWhile (\<lambda>c. c \<in> {CHR '' '', CHR 0x09, CHR 0x0D, CHR 0x0A}) s)))"

definition getaddresses_plain :: "string list \<Rightarrow> (string \<times> string) list option" where
  "getaddresses_plain vals =
     (let atoms = map strip_lws (py_split CHR '','' (py_join '', '' vals))
      in if list_all (\<lambda>a. a \<noteq> [] \<and> list_all atom_char a) atoms
         then Some (map (\<lambda>a. ([], a)) atoms) else None)"

section \<open>The orchestrator\<close>

text \<open>
  Line 82 of \<^verbatim>\<open>build_driver\<close>: the window is two integers around an \<^verbatim>\<open>x\<close>, or a
  \<^verbatim>\<open>ValueError\<close> is raised (its text is not modelled).
\<close>

definition build_driver :: "bool \<Rightarrow> string \<Rightarrow> exn + (int \<times> int)" where
  "build_driver headed window =
     (case map py_int (py_split CHR ''x'' (py_lower window)) of
        [Some wd, Some ht] \<Rightarrow> Inr (wd, ht)
      | _ \<Rightarrow> Inl (Exn ''ValueError'' ''window''))"

text \<open>The candidates of lines 557 to 562: both paths of every result, where set.\<close>

definition cand_paths :: "url_result list \<Rightarrow> string list" where
  "cand_paths results =
     concat (map (\<lambda>r. (case r_screenshot_path r of None \<Rightarrow> [] | Some p \<Rightarrow> [p])
                     @ (case r_failure_screenshot_path r of None \<Rightarrow> [] | Some p \<Rightarrow> [p])) results)"

text \<open>Lines 564 to 580: the candidates that resolve, exist and are files.\<close>

fun collect_attachments ::
  "world \<Rightarrow> string list \<Rightarrow> string list \<times> string list \<Rightarrow> string list \<times> string list" where
  "collect_attachments w [] acc = acc"
| "collect_attachments w (p # ps) (log, attachments) =
     (case w_resolve w p of
        Inl e \<Rightarrow>
          collect_attachments w ps
            (log @ [''[Attach] Skipping (resolve failed): '' @ p @ '' -> '' @ exn_text e], attachments)
      | Inr rp \<Rightarrow>
          if \<not> w_exists w rp then
            collect_attachments w ps
              (log @ [''[Attach] Skipping (does not exist): '' @ rp], attachments)
          else if \<not> w_is_file w rp then
            collect_attachments w ps
              (log @ [''[Attach] Skipping (not a file): '' @ rp], attachments)
          else
            collect_attachments w ps
              ((if length rp > 230 then
                  log @ [''[Attach] Warning: path long ('' @ str_nat (length rp)
                         @ '' chars). Consider shorter --out-dir. '' @ rp]
                else log), attachments @ [rp]))"

text \<open>The subject of line 546; the dashes are en dashes (three bytes each).\<close>

definition en_dash :: string where
  "en_dash = [CHR 0xE2, CHR 0x80, CHR 0x93]"

definition default_subject :: "string \<Rightarrow> bool \<Rightarrow> string" where
  "default_subject hm overall_ok =
     ''GOCC '' @ en_dash @ '' Health Check '' @ en_dash @ '' JP AgentWeb URL '' @ en_dash
     @ '' ('' @ hm @ '') HKT '' @ en_dash @ '' '' @ (if overall_ok then ''PASS'' else ''FAIL'')"

text \<open>
  Lines 583 to 603: composing and sending, inside one \<^verbatim>\<open>try\<close>. The result is the error
  stream, the message if one was composed, and the SMTP sessions opened.
\<close>

definition compose_and_send ::
  "world \<Rightarrow> args \<Rightarrow> string \<Rightarrow> string \<Rightarrow> string \<Rightarrow> report_body \<Rightarrow> string list
     \<Rightarrow> (string \<times> string) list \<Rightarrow> string list \<times> message option \<times> smtp_request list" where
  "compose_and_send w a smtp_user smtp_pass subject body_html attachments inline_cid_by_path =
     (case compose_email_message w (a_smtp_from_name a) smtp_user (email_to_of a) (email_cc_of a)
             subject body_html attachments inline_cid_by_path of
        (log, Inl e) \<Rightarrow>
          (log @ [''Failed to compose/send SMTP email: '' @ exn_text e], None, [])
      | (log, Inr msg) \<Rightarrow>
          (case send_via_smtp w msg (a_smtp_server a) (a_smtp_port a) smtp_user smtp_pass
                  (a_smtp_use_ssl a) of
             (log', reqs, Some e) \<Rightarrow>
               (log @ log' @ [''Failed to compose/send SMTP email: '' @ exn_text e], Some msg, reqs)
           | (log', reqs, None) \<Rightarrow> (log @ log', Some msg, reqs)))"

text \<open>
  What a run leaves: the exit status of the process, the error stream, whether the
  browser was started and quit, the results, the message composed and the SMTP sessions
  opened. An uncaught exception ends the process with status 1 after its traceback.
\<close>

record outcome =
  o_exit :: nat
  o_err :: "string list"
  o_started :: bool
  o_quit :: bool
  o_results :: "url_result list"
  o_message :: "message option"
  o_requests :: "smtp_request list"

definition traceback :: "exn \<Rightarrow> string" where
  "traceback e = ''Traceback (most recent call last): '' @ exn_msg e"

text \<open>Lines 507 to 609: the \<^verbatim>\<open>try\<close> with the loop and the report, and its \<^verbatim>\<open>finally\<close>.\<close>

definition session :: "world \<Rightarrow> args \<Rightarrow> string \<Rightarrow> string \<Rightarrow> outcome" where
  "session w a smtp_user smtp_pass =
     (let st = run_loop (w_visit w) (check_of a) 0 (urls_of a) init_state;
          results = ls_results st;
          overall_ok = ls_overall_ok st;
          email_subject = or_default (a_email_subject a) (default_subject (w_now_hm w) overall_ok)
      in case build_email_html_and_inline_map w results overall_ok (a_email_inline_images a) of
           Inl e \<Rightarrow>
             \<lparr>o_exit = 1, o_err = ls_err st @ [traceback e], o_started = True, o_quit = True,
              o_results = results, o_message = None, o_requests = []\<rparr>
         | Inr (body_html, inline_cid_by_path) \<Rightarrow>
             (let att = (if email_attach_screens_of a
                         then collect_attachments w (cand_paths results) ([], [])
                         else ([], []));
                  cs = compose_and_send w a smtp_user smtp_pass email_subject body_html (snd att)
                         (if a_email_inline_images a then inline_cid_by_path else [])
              in \<lparr>o_exit = (if overall_ok then 0 else 1),
                  o_err = ls_err st @ fst att @ fst cs,
                  o_started = True, o_quit = True, o_results = results,
                  o_message = fst (snd cs), o_requests = snd (snd cs)\<rparr>))"

text \<open>
  \<open>body_built w a\<close>: line 549 returns, that is, with inline images no screenshot path of
  a result fails to resolve. Otherwise its exception leaves \<^verbatim>\<open>main\<close> uncaught.
\<close>

definition body_built :: "world \<Rightarrow> args \<Rightarrow> bool" where
  "body_built w a =
     (let st = run_loop (w_visit w) (check_of a) 0 (urls_of a) init_state
      in \<not> isl (build_email_html_and_inline_map w (ls_results st) (ls_overall_ok st)
                  (a_email_inline_images a)))"

definition exit_before_start :: "nat \<Rightarrow> string \<Rightarrow> outcome" where
  "exit_before_start code line =
     \<lparr>o_exit = code, o_err = [line], o_started = False, o_quit = False,
      o_results = [], o_message = None, o_requests = []\<rparr>"

text \<open>\<^verbatim>\<open>main\<close>, from the parsed command line.\<close>

definition main :: "world \<Rightarrow> args \<Rightarrow> outcome" where
  "main w a =
     (let smtp_user = smtp_user_of a (w_env w);
          smtp_pass = smtp_pass_of a (w_env w)
      in if \<not> truthy smtp_user then
           exit_before_start 2
             ''ERROR: SMTP username missing. Provide --smtp-user or set env SMTP_USERNAME.''
         else if \<not> truthy smtp_pass then
           exit_before_start 2
             ''ERROR: SMTP password missing. Provide --smtp-pass or set env SMTP_PASSWORD.''
         else
           (case build_driver (headed_of a) (window_of a) of
              Inl e \<Rightarrow> exit_before_start 1 (traceback e)
            | Inr _ \<Rightarrow> session w a (the smtp_user) (the smtp_pass)))"

text \<open>The result one iteration appends, read off an iteration started on the empty state.\<close>

definition iteration_result :: "visit \<Rightarrow> check \<Rightarrow> string \<Rightarrow> url_result" where
  "iteration_result v c url = last (ls_results (loop_body v c url init_state))"

section \<open>Sample runs\<close>

text \<open>
  A visit in which every call of the driver returns: the element is displayed, its
  computed style has the given opacity, its text is the given text.
\<close>

definition v0 :: "string \<Rightarrow> string \<Rightarrow> visit" where
  "v0 opacity txt = \<lparr>v_get = None, v_find = None, v_displayed = Inr True,
     v_size = Inr Map.empty,
     v_css = Inr [''display'' \<mapsto> PStr ''block'', ''visibility'' \<mapsto> PStr ''visible'', ''opacity'' \<mapsto> PStr opacity],
     v_text = Inr (Some txt), v_stamp = ''20240101_000000'',
     v_scroll_w = Inr (Some 800), v_scroll_h = Inr (Some 600),
     v_resize = (\<lambda>_ _. None), v_save = (\<lambda>_. None), v_stamp_fail = ''20240101_000001''\<rparr>"

text \<open>
  A namespace with every option omitted but the list of URLs, and an environment of a
  run: the credentials are in the default environment variables, relative paths resolve
  under \<^verbatim>\<open>/work\<close>, a file exists when it can be read, every file is a PNG image, and
  the address-list parser is the one modelled above.
\<close>

definition sample_args :: "string list \<Rightarrow> args" where
  "sample_args urls =
     \<lparr>a_urls = Some urls, a_selector = None, a_expected_text = Some ''Title'',
      a_timeout_ms = None, a_out_dir = None, a_window = None, a_headed = False,
      a_check_size = False, a_min_width = None, a_min_height = None,
      a_email_to = None, a_email_cc = None, a_email_subject = None,
      a_email_attach_screens = False, a_email_inline_images = True,
      a_smtp_server = ''smtp.gmail.com'', a_smtp_port = 587, a_smtp_use_ssl = False,
      a_smtp_user = None, a_smtp_user_env = ''SMTP_USERNAME'',
      a_smtp_pass = None, a_smtp_pass_env = ''SMTP_PASSWORD'', a_smtp_from_name = []\<rparr>"

definition sample_resolve :: "string \<Rightarrow> exn + string" where
  "sample_resolve p = Inr (if take 1 p = ''/'' then p else ''/work/'' @ p)"

definition sample_world ::
  "(nat \<Rightarrow> visit) \<Rightarrow> (string \<Rightarrow> exn + string) \<Rightarrow> (smtp_request \<Rightarrow> exn option) \<Rightarrow> world" where
  "sample_world vs rd smtp =
     \<lparr>w_env = [''SMTP_USERNAME'' \<mapsto> ''bot@example.org'', ''SMTP_PASSWORD'' \<mapsto> ''secret''],
      w_visit = vs,
      w_resolve = sample_resolve,
      w_exists = (\<lambda>p. \<not> isl (rd p)),
      w_is_file = (\<lambda>p. \<not> isl (rd p)),
      w_read = rd,
      w_guess_type = (\<lambda>p. Some ''image/png''),
      w_msgid = (\<lambda>i. ''img'' @ str_nat i @ ''@local''),
      w_now_hm = ''0930'',
      w_now_report = ''2024-01-01 09:30'',
      w_getaddresses = (\<lambda>vals. case getaddresses_plain vals of None \<Rightarrow> [] | Some r \<Rightarrow> r),
      w_smtp = smtp\<rparr>"


definition png_file :: "string \<Rightarrow> exn + string" where
  "png_file p = Inr ''PNG''"

definition smtp_ok :: "smtp_request \<Rightarrow> exn option" where
  "smtp_ok req = None"




text \<open>A run of one URL that passes, with every file in place and the SMTP server up.\<close>

definition passing_world :: world where
  "passing_world = sample_world (\<lambda>i. v0 ''1'' ''Title'') png_file smtp_ok"

text \<open>
  A message composed from two candidate attachments, the first of which is also in the
  inline-image map.
\<close>

definition sample_body :: report_body where
  "sample_body = \<lparr>b_status_text = ''PASS'', b_when = ''2024-01-01 09:30'', b_rows = [],
                   b_overall_color = ''#28a745'', b_overall_label = ''ALL PASSED''\<rparr>"

definition sample_composed :: "string list \<times> (exn + message)" where
  "sample_composed =
     compose_email_message passing_world [] ''bot@example.org'' (PyList [''ops@example.org'']) []
       ''Health check'' sample_body [''/work/a.png'', ''/work/b.png'']
       [(''/work/a.png'', ''img0@local'')]"



section \<open>Properties of the utilities\<close>

lemma py_replace_Nil: "old \<noteq> [] \<Longrightarrow> py_replace old new [] = []"
  by (simp add: py_replace.simps)

lemma py_replace_char:
  "py_replace [a] [b] s = map (\<lambda>c. if c = a then b else c) s"
proof (induction s)
  case Nil
  show ?case by (simp add: py_replace.simps)
next
  case (Cons x xs)
  show ?case
    by (subst py_replace.simps) (simp add: Cons.IH)
qed

lemma py_replace_absent:
  "old \<noteq> [] \<Longrightarrow> \<not> occurs old s \<Longrightarrow> py_replace old new s = s"
proof (induction s)
  case Nil
  then show ?case by (simp add: py_replace.simps)
next
  case (Cons x xs)
  then show ?case
    by (subst py_replace.simps) simp
qed

lemma py_replace_prefix:
  "old \<noteq> [] \<Longrightarrow> py_replace old new (old @ s) = new @ py_replace old new s"
  by (subst py_replace.simps) simp

lemma underscore_chain:
  "((\<lambda>c. if c = CHR ''='' then CHR ''_'' else c) \<circ>
    (\<lambda>c. if c = CHR ''&'' then CHR ''_'' else c) \<circ>
    (\<lambda>c. if c = CHR '':'' then CHR ''_'' else c) \<circ>
    (\<lambda>c. if c = CHR ''?'' then CHR ''_'' else c) \<circ>
    (\<lambda>c. if c = CHR ''/'' then CHR ''_'' else c)) = underscore"
  by (rule ext) (simp add: underscore_def)

lemma sanitize_eq:
  "sanitize url = map underscore (py_replace ''http://'' '''' (py_replace ''https://'' '''' url))"
  by (simp add: sanitize_def py_replace_char underscore_chain [symmetric])

lemma underscore_free: "underscore c \<notin> set '':/?&=''"
  by (simp add: underscore_def)

section \<open>The run loop\<close>

lemma loop_body_results:
  "ls_results (loop_body v c url st) = ls_results st @ [iteration_result v c url]"
  by (simp add: loop_body_def iteration_result_def init_state_def split: sum.splits)

lemma iteration_result_url: "r_url (iteration_result v c url) = url"
  by (simp add: loop_body_def iteration_result_def init_state_def split: sum.splits)


lemma loop_body_overall:
  "ls_overall_ok (loop_body v c url st) = (ls_overall_ok st \<and> r_ok (iteration_result v c url))"
  by (simp add: loop_body_def iteration_result_def init_state_def split: sum.splits)

lemma run_loop_results_gen:
  "ls_results (run_loop vs c i urls st) =
     ls_results st @ map (\<lambda>(j, u). iteration_result (vs j) c u) (enumerate i urls)"
  by (induction urls arbitrary: i st) (simp_all add: loop_body_results)

lemma run_loop_overall_gen:
  "ls_overall_ok (run_loop vs c i urls st) =
     (ls_overall_ok st \<and> list_all r_ok (map (\<lambda>(j, u). iteration_result (vs j) c u) (enumerate i urls)))"
  by (induction urls arbitrary: i st) (simp_all add: loop_body_overall)

lemma map_url_enumerate:
  "map r_url (map (\<lambda>(j, u). iteration_result (vs j) c u) (enumerate i urls)) = urls"
  by (induction urls arbitrary: i) (simp_all add: iteration_result_url)

lemma run_loop_results:
  "ls_results (run_loop vs c 0 urls init_state) =
     map (\<lambda>(i, u). iteration_result (vs i) c u) (enumerate 0 urls)"
  by (simp add: run_loop_results_gen init_state_def)

lemma run_loop_overall:
  "ls_overall_ok (run_loop vs c 0 urls init_state)
     = list_all r_ok (ls_results (run_loop vs c 0 urls init_state))"
  unfolding run_loop_results by (simp add: run_loop_overall_gen init_state_def)

text \<open>
  Claim C2. For every list of URLs the loop leaves exactly one result per URL, in the
  order of the URLs: the \<open>i\<close>-th result is the one the \<open>i\<close>-th URL's own iteration
  yields from the \<open>i\<close>-th visit, whatever the earlier iterations did, so a failure stops
  nothing. The flag \<^verbatim>\<open>overall_ok\<close> is true exactly when every result is ok.
\<close>

theorem run_loop_one_result_per_url:
  "ls_results (run_loop vs c 0 urls init_state) =
     map (\<lambda>(i, u). iteration_result (vs i) c u) (enumerate 0 urls)
   \<and> map r_url (ls_results (run_loop vs c 0 urls init_state)) = urls
   \<and> length (ls_results (run_loop vs c 0 urls init_state)) = length urls
   \<and> ls_overall_ok (run_loop vs c 0 urls init_state)
       = list_all r_ok (ls_results (run_loop vs c 0 urls init_state))"
proof -
  have u: "map r_url (ls_results (run_loop vs c 0 urls init_state)) = urls"
    unfolding run_loop_results by (rule map_url_enumerate)
  have l: "length (ls_results (run_loop vs c 0 urls init_state)) = length urls"
    unfolding run_loop_results by simp
  from run_loop_results u l run_loop_overall show ?thesis by blast
qed

section \<open>Sanitizing a URL\<close>

lemma sanitize_example: "sanitize ''https://a.com/b?c=1'' = ''a.com_b_c_1''"
  by code_simp

lemma sanitize_plain:
  "\<not> occurs ''https://'' url \<Longrightarrow> \<not> occurs ''http://'' url \<Longrightarrow> sanitize url = map underscore url"
  by (simp add: sanitize_eq py_replace_absent)

lemma sanitize_https:
  "\<not> occurs ''https://'' rest \<Longrightarrow> \<not> occurs ''http://'' rest \<Longrightarrow>
   sanitize (''https://'' @ rest) = map underscore rest"
  using py_replace_prefix [of "''https://''" "''''" rest]
  by (simp add: sanitize_eq py_replace_absent)

lemma sanitize_http:
  "\<not> occurs ''https://'' rest \<Longrightarrow> \<not> occurs ''http://'' rest \<Longrightarrow>
   sanitize (''http://'' @ rest) = map underscore rest"
  using py_replace_prefix [of "''http://''" "''''" rest]
  by (simp add: sanitize_eq py_replace_absent)

lemma sanitize_agrees:
  assumes "\<not> occurs ''https://'' (strip_scheme url)" "\<not> occurs ''http://'' (strip_scheme url)"
  shows "sanitize url = sanitize_spec url"
proof -
  consider (s) "take 8 url = ''https://''"
    | (p) "take 8 url \<noteq> ''https://''" "take 7 url = ''http://''"
    | (n) "take 8 url \<noteq> ''https://''" "take 7 url \<noteq> ''http://''"
    by blast
  then show ?thesis
  proof cases
    case s
    then have u: "url = ''https://'' @ drop 8 url"
      by (metis append_take_drop_id)
    from s assms have "sanitize (''https://'' @ drop 8 url) = map underscore (drop 8 url)"
      by (intro sanitize_https) (simp_all add: strip_scheme_def)
    with u s show ?thesis by (simp add: sanitize_spec_def strip_scheme_def)
  next
    case p
    then have u: "url = ''http://'' @ drop 7 url"
      by (metis append_take_drop_id)
    from p assms have "sanitize (''http://'' @ drop 7 url) = map underscore (drop 7 url)"
      by (intro sanitize_http) (simp_all add: strip_scheme_def)
    with u p show ?thesis by (simp add: sanitize_spec_def strip_scheme_def)
  next
    case n
    with assms show ?thesis
      by (simp add: sanitize_spec_def strip_scheme_def sanitize_plain)
  qed
qed

text \<open>
  Claim C6 reads \<^verbatim>\<open>sanitize\<close> as \<^const>\<open>sanitize_spec\<close>: strip the scheme prefix, then
  replace the five characters. The code removes the two scheme strings wherever they
  stand, so on a URL that carries another URL the two differ: the inner scheme vanishes
  where the wording would turn its colon and slashes into underscores.
\<close>

theorem sanitize_embedded_scheme_counterexample:
  "sanitize ''https://a.com/r?u=http://b.org'' = ''a.com_r_u_b.org'' \<and>
   sanitize_spec ''https://a.com/r?u=http://b.org'' = ''a.com_r_u_http___b.org'' \<and>
   sanitize ''https://a.com/r?u=http://b.org'' \<noteq> sanitize_spec ''https://a.com/r?u=http://b.org''"
  by code_simp

text \<open>
  Claim C6, amended. \<^verbatim>\<open>sanitize\<close> removes every occurrence of \<^verbatim>\<open>https://\<close> and then of
  \<^verbatim>\<open>http://\<close>, and replaces each of \<^verbatim>\<open>: / ? & =\<close> that remains by an underscore, so
  none of the five is left; when no scheme string stands behind the scheme prefix it is
  the function of the wording; and \<^verbatim>\<open>https://a.com/b?c=1\<close> becomes \<^verbatim>\<open>a.com_b_c_1\<close>.
\<close>

theorem sanitize_removes_schemes:
  "sanitize url = map underscore (py_replace ''http://'' '''' (py_replace ''https://'' '''' url))
   \<and> set (sanitize url) \<inter> set '':/?&='' = {}
   \<and> (\<not> occurs ''https://'' (strip_scheme url) \<and> \<not> occurs ''http://'' (strip_scheme url)
        \<longrightarrow> sanitize url = sanitize_spec url)
   \<and> sanitize ''https://a.com/b?c=1'' = ''a.com_b_c_1''"
proof -
  have "x \<notin> set '':/?&=''" if "x \<in> set (sanitize url)" for x
  proof -
    from that obtain c where "x = underscore c"
      unfolding sanitize_eq by auto
    then show ?thesis using underscore_free [of c] by simp
  qed
  then have "set (sanitize url) \<inter> set '':/?&='' = {}"
    by blast
  with sanitize_eq sanitize_agrees sanitize_example show ?thesis by blast
qed

theorem sanitize_removes_schemes_witness:
  "\<not> occurs ''https://'' (strip_scheme ''https://a.com/b?c=1'')
   \<and> \<not> occurs ''http://'' (strip_scheme ''https://a.com/b?c=1'')
   \<and> sanitize ''https://a.com/b?c=1'' = sanitize_spec ''https://a.com/b?c=1''
   \<and> sanitize_spec ''https://a.com/b?c=1'' = ''a.com_b_c_1''"
proof -
  have h: "\<not> occurs ''https://'' (strip_scheme ''https://a.com/b?c=1'')
     \<and> \<not> occurs ''http://'' (strip_scheme ''https://a.com/b?c=1'')"
    by code_simp
  have s: "sanitize_spec ''https://a.com/b?c=1'' = ''a.com_b_c_1''"
    by code_simp
  from h s sanitize_removes_schemes [of "''https://a.com/b?c=1''"] show ?thesis by blast
qed

section \<open>The attach-screenshots flag\<close>

lemma attach_flag_on: "email_attach_screens_of a = True"
  by (simp add: email_attach_screens_of_def DEFAULT_EMAIL_ATTACH_SCREENS_def)

lemma attach_flag_fields:
  "check_of (a\<lparr>a_email_attach_screens := b\<rparr>) = check_of a"
  "urls_of (a\<lparr>a_email_attach_screens := b\<rparr>) = urls_of a"
  "email_to_of (a\<lparr>a_email_attach_screens := b\<rparr>) = email_to_of a"
  "email_cc_of (a\<lparr>a_email_attach_screens := b\<rparr>) = email_cc_of a"
  "window_of (a\<lparr>a_email_attach_screens := b\<rparr>) = window_of a"
  "headed_of (a\<lparr>a_email_attach_screens := b\<rparr>) = headed_of a"
  "smtp_user_of (a\<lparr>a_email_attach_screens := b\<rparr>) env = smtp_user_of a env"
  "smtp_pass_of (a\<lparr>a_email_attach_screens := b\<rparr>) env = smtp_pass_of a env"
  by (simp_all add: check_of_def urls_of_def selector_of_def expected_text_of_def
     timeout_ms_of_def out_dir_of_def check_size_of_def min_w_of_def min_h_of_def
     email_to_of_def email_cc_of_def window_of_def headed_of_def smtp_user_of_def smtp_pass_of_def)

lemma attach_flag_sel:
  "a_smtp_from_name (a\<lparr>a_email_attach_screens := b\<rparr>) = a_smtp_from_name a"
  "a_smtp_server (a\<lparr>a_email_attach_screens := b\<rparr>) = a_smtp_server a"
  "a_smtp_port (a\<lparr>a_email_attach_screens := b\<rparr>) = a_smtp_port a"
  "a_smtp_use_ssl (a\<lparr>a_email_attach_screens := b\<rparr>) = a_smtp_use_ssl a"
  "a_email_subject (a\<lparr>a_email_attach_screens := b\<rparr>) = a_email_subject a"
  "a_email_inline_images (a\<lparr>a_email_attach_screens := b\<rparr>) = a_email_inline_images a"
  by simp_all

lemma compose_and_send_attach_flag:
  "compose_and_send w (a\<lparr>a_email_attach_screens := b\<rparr>) = compose_and_send w a"
  unfolding compose_and_send_def attach_flag_fields attach_flag_sel ..

lemma session_attach_flag:
  "session w (a\<lparr>a_email_attach_screens := b\<rparr>) = session w a"
  unfolding session_def attach_flag_fields attach_flag_on compose_and_send_attach_flag attach_flag_sel ..

text \<open>
  Claim C9. For every parsed command line the effective attach-screenshots setting is
  true, because the flag is or-ed with the default \<^verbatim>\<open>True\<close>; giving or omitting
  \<^verbatim>\<open>--email-attach-screens\<close> changes neither the setting nor anything else of the run.
\<close>

theorem attach_screens_always_on:
  "email_attach_screens_of a = True
   \<and> email_attach_screens_of (a\<lparr>a_email_attach_screens := b\<rparr>) = email_attach_screens_of a
   \<and> main w (a\<lparr>a_email_attach_screens := b\<rparr>) = main w a"
  unfolding main_def attach_flag_fields attach_flag_on session_attach_flag by simp

section \<open>The opacity check\<close>









section \<open>The mail sender\<close>







section \<open>The composed message\<close>

lemma embed_inline_acc:
  "\<exists>lg new. embed_inline w d ps (log, parts) = (log @ lg, parts @ new)
     \<and> map p_path new = filter (\<lambda>p. \<not> isl (w_read w p) \<and> map_of d p \<noteq> None) ps
     \<and> (\<forall>x\<in>set new. is_inline x \<and> w_read w (p_path x) = Inr (p_data x)
            \<and> map_of d (p_path x) = Some (p_cid x))
     \<and> (\<forall>p\<in>set ps. \<forall>e. w_read w p = Inl e \<longrightarrow>
            (''[Embed Inline] Failed: '' @ p @ '' -> '' @ exn_text e) \<in> set lg)"
proof (induction ps arbitrary: log parts)
  case Nil
  show ?case by simp
next
  case (Cons p ps)
  show ?case
  proof (cases "w_read w p")
    case (Inl e)
    obtain lg new where
      h: "embed_inline w d ps (log @ [''[Embed Inline] Failed: '' @ p @ '' -> '' @ exn_text e], parts)
            = ((log @ [''[Embed Inline] Failed: '' @ p @ '' -> '' @ exn_text e]) @ lg, parts @ new)"
        "map p_path new = filter (\<lambda>p. \<not> isl (w_read w p) \<and> map_of d p \<noteq> None) ps"
        "\<forall>x\<in>set new. is_inline x \<and> w_read w (p_path x) = Inr (p_data x)
            \<and> map_of d (p_path x) = Some (p_cid x)"
        "\<forall>p\<in>set ps. \<forall>e. w_read w p = Inl e \<longrightarrow>
            (''[Embed Inline] Failed: '' @ p @ '' -> '' @ exn_text e) \<in> set lg"
      using Cons.IH by blast
    show ?thesis
      apply (rule exI [of _ "[''[Embed Inline] Failed: '' @ p @ '' -> '' @ exn_text e] @ lg"])
      apply (rule exI [of _ new])
      using h Inl by auto
  next
    case (Inr data)
    show ?thesis
    proof (cases "map_of d p")
      case None
      let ?line = "''[Embed Inline] Failed: '' @ p @ '' -> PosixPath('' @ [CHR 0x27] @ p @ [CHR 0x27] @ '')''"
      obtain lg new where
        h: "embed_inline w d ps (log @ [?line], parts) = ((log @ [?line]) @ lg, parts @ new)"
          "map p_path new = filter (\<lambda>p. \<not> isl (w_read w p) \<and> map_of d p \<noteq> None) ps"
          "\<forall>x\<in>set new. is_inline x \<and> w_read w (p_path x) = Inr (p_data x)
              \<and> map_of d (p_path x) = Some (p_cid x)"
          "\<forall>p\<in>set ps. \<forall>e. w_read w p = Inl e \<longrightarrow>
              (''[Embed Inline] Failed: '' @ p @ '' -> '' @ exn_text e) \<in> set lg"
        using Cons.IH by blast
      show ?thesis
        apply (rule exI [of _ "[?line] @ lg"])
        apply (rule exI [of _ new])
        using h Inr None by auto
    next
      case (Some cid)
      let ?part = "InlinePart p cid
                      (if CHR ''/'' \<in> set (guess_mime_type w p)
                       then tl (dropWhile (\<lambda>c. c \<noteq> CHR ''/'') (guess_mime_type w p))
                       else ''png'') data"
      obtain lg new where
        h: "embed_inline w d ps (log, parts @ [?part]) = (log @ lg, (parts @ [?part]) @ new)"
          "map p_path new = filter (\<lambda>p. \<not> isl (w_read w p) \<and> map_of d p \<noteq> None) ps"
          "\<forall>x\<in>set new. is_inline x \<and> w_read w (p_path x) = Inr (p_data x)
              \<and> map_of d (p_path x) = Some (p_cid x)"
          "\<forall>p\<in>set ps. \<forall>e. w_read w p = Inl e \<longrightarrow>
              (''[Embed Inline] Failed: '' @ p @ '' -> '' @ exn_text e) \<in> set lg"
        using Cons.IH by blast
      show ?thesis
        apply (rule exI [of _ lg])
        apply (rule exI [of _ "?part # new"])
        using h Inr Some by auto
    qed
  qed
qed

lemma attach_files_acc:
  "attach_files w ips atts (log, parts) = (log', r) \<Longrightarrow>
     (\<exists>lg. log' = log @ lg)
     \<and> (\<forall>e. r = Inl e \<longrightarrow>
           (\<exists>p\<in>set atts. w_resolve w p = Inl e)
           \<or> e = Exn ''ValueError'' ''not enough values to unpack (expected 2, got 1)'')
     \<and> (\<forall>ps'. r = Inr ps' \<longrightarrow>
           (\<exists>new. ps' = parts @ new
              \<and> (\<forall>x\<in>set new. \<not> is_inline x \<and> p_path x \<notin> set ips
                     \<and> (\<exists>p\<in>set atts. w_resolve w p = Inr (p_path x))
                     \<and> w_read w (p_path x) = Inr (p_data x))))"
proof (induction atts arbitrary: log parts)
  case Nil
  then show ?case by auto
next
  case (Cons p ps)
  show ?case
  proof (cases "w_resolve w p")
    case (Inl e)
    with Cons.prems show ?thesis by auto
  next
    case (Inr rp)
    show ?thesis
    proof (cases "rp \<in> set ips")
      case True
      with Cons.prems Inr have "attach_files w ips ps (log, parts) = (log', r)" by simp
      from Cons.IH [OF this] show ?thesis by auto
    next
      case False
      show ?thesis
      proof (cases "CHR ''/'' \<in> set (guess_mime_type w rp)")
        case no: False
        with Cons.prems Inr False show ?thesis by auto
      next
        case True
        show ?thesis
        proof (cases "w_read w rp")
          case rd: (Inl e)
          with Cons.prems Inr False True
          have "attach_files w ips ps
                  (log @ [''[Attach] Failed: '' @ rp @ '' -> '' @ exn_text e], parts) = (log', r)"
            by simp
          from Cons.IH [OF this] show ?thesis by auto
        next
          case rd: (Inr data)
          let ?part = "AttachPart rp (takeWhile (\<lambda>c. c \<noteq> CHR ''/'') (guess_mime_type w rp))
                        (tl (dropWhile (\<lambda>c. c \<noteq> CHR ''/'') (guess_mime_type w rp))) data"
          from Cons.prems Inr False True rd
          have "attach_files w ips ps (log, parts @ [?part]) = (log', r)"
            by simp
          from Cons.IH [OF this] Inr False rd show ?thesis
            by (auto simp add: Cons_eq_append_conv)
        qed
      qed
    qed
  qed
qed

lemma resolve_all_Inr:
  "resolve_all w ps = Inr rs \<Longrightarrow> list_all2 (\<lambda>p r. w_resolve w p = Inr r) ps rs"
proof (induction ps arbitrary: rs)
  case Nil
  then show ?case by simp
next
  case (Cons p ps)
  from Cons.prems obtain r rs' where
    "w_resolve w p = Inr r" "resolve_all w ps = Inr rs'" "rs = r # rs'"
    by (cases "w_resolve w p"; cases "resolve_all w ps") auto
  with Cons.IH show ?case by simp
qed

lemma list_all2_left: "list_all2 P xs ys \<Longrightarrow> x \<in> set xs \<Longrightarrow> \<exists>y\<in>set ys. P x y"
  by (induction rule: list_all2_induct) auto

lemma list_all2_right: "list_all2 P xs ys \<Longrightarrow> y \<in> set ys \<Longrightarrow> \<exists>x\<in>set xs. P x y"
  by (induction rule: list_all2_induct) auto

lemma inline_paths_set_Inr:
  assumes "inline_paths_set w d = Inr ips"
  shows "distinct ips"
    and "\<And>k. k \<in> fst ` set d \<Longrightarrow> \<exists>rp\<in>set ips. w_resolve w k = Inr rp"
    and "\<And>rp. rp \<in> set ips \<Longrightarrow> \<exists>k\<in>fst ` set d. w_resolve w k = Inr rp"
proof -
  obtain rs where r: "resolve_all w (map fst d) = Inr rs" and i: "ips = remdups rs"
  proof (cases "resolve_all w (map fst d)")
    case (Inl e)
    with assms show ?thesis by (simp add: inline_paths_set_def)
  next
    case (Inr rs)
    with assms have "ips = remdups rs" by (simp add: inline_paths_set_def)
    with Inr that show ?thesis by simp
  qed
  from resolve_all_Inr [OF r]
  have l: "list_all2 (\<lambda>p r. w_resolve w p = Inr r) (map fst d) rs" .
  show "distinct ips" using i by simp
  show "\<exists>rp\<in>set ips. w_resolve w k = Inr rp" if "k \<in> fst ` set d" for k
  proof -
    from that have "k \<in> set (map fst d)" by simp
    from list_all2_left [OF l this] obtain rp where "rp \<in> set rs" "w_resolve w k = Inr rp"
      by (rule bexE)
    with i have "rp \<in> set ips" "w_resolve w k = Inr rp" by simp_all
    then show ?thesis by (rule bexI [rotated])
  qed
  show "\<exists>k\<in>fst ` set d. w_resolve w k = Inr rp" if "rp \<in> set ips" for rp
  proof -
    from that i have "rp \<in> set rs" by simp
    from list_all2_right [OF l this] obtain k where "k \<in> set (map fst d)" "w_resolve w k = Inr rp"
      by (rule bexE)
    then have "k \<in> fst ` set d" "w_resolve w k = Inr rp" by simp_all
    then show ?thesis by (rule bexI [rotated])
  qed
qed

lemma compose_parts:
  assumes "compose_email_message w fn u to cc subj body atts d = (log, Inr msg)"
  obtains ips inl att where
    "inline_paths_set w d = Inr ips"
    "m_parts msg = inl @ att"
    "map p_path inl = filter (\<lambda>p. \<not> isl (w_read w p) \<and> map_of d p \<noteq> None) ips"
    "\<forall>x\<in>set inl. is_inline x \<and> w_read w (p_path x) = Inr (p_data x)
        \<and> map_of d (p_path x) = Some (p_cid x)"
    "\<forall>x\<in>set att. \<not> is_inline x \<and> p_path x \<notin> set ips
        \<and> (\<exists>p\<in>set atts. w_resolve w p = Inr (p_path x))
        \<and> w_read w (p_path x) = Inr (p_data x)"
    "m_to msg = to_header to" "m_cc msg = cc_header cc"
proof -
  from assms obtain ips where ips: "inline_paths_set w d = Inr ips"
    by (cases "inline_paths_set w d") (auto simp add: compose_email_message_def)
  obtain lg inl where
    e: "embed_inline w d ips ([], []) = (lg, inl)"
      and m: "map p_path inl = filter (\<lambda>p. \<not> isl (w_read w p) \<and> map_of d p \<noteq> None) ips"
      and q: "\<forall>x\<in>set inl. is_inline x \<and> w_read w (p_path x) = Inr (p_data x)
        \<and> map_of d (p_path x) = Some (p_cid x)"
    using embed_inline_acc [of w d ips "[]" "[]"] by auto
  obtain log' r where a: "attach_files w ips atts (lg, inl) = (log', r)"
    by (cases "attach_files w ips atts (lg, inl)")
  from assms ips e a obtain ps where r: "r = Inr ps" and l: "log' = log"
    and msg: "msg = \<lparr>m_subject = subj, m_from = (fn, u), m_to = to_header to,
       m_cc = cc_header cc, m_html = body, m_parts = ps\<rparr>"
    by (cases r) (auto simp add: compose_email_message_def)
  from attach_files_acc [OF a] r obtain att where
    "ps = inl @ att"
    "\<forall>x\<in>set att. \<not> is_inline x \<and> p_path x \<notin> set ips
        \<and> (\<exists>p\<in>set atts. w_resolve w p = Inr (p_path x))
        \<and> w_read w (p_path x) = Inr (p_data x)"
    by blast
  with ips m q msg that show thesis by simp
qed

lemma filter_same_key:
  "distinct (map f xs) \<Longrightarrow> x \<in> set xs \<Longrightarrow> filter (\<lambda>y. f y = f x) xs = [x]"
proof (induction xs)
  case Nil
  then show ?case by simp
next
  case (Cons a xs)
  show ?case
  proof (cases "x = a")
    case True
    from Cons.prems have "f a \<notin> f ` set xs" by simp
    then have "\<forall>y\<in>set xs. f y \<noteq> f a" by (metis imageI)
    then have "filter (\<lambda>y. f y = f a) xs = []" by (simp add: filter_empty_conv)
    with True show ?thesis by simp
  next
    case False
    with Cons.prems have "x \<in> set xs" "f a \<noteq> f x" by auto
    with Cons show ?thesis by simp
  qed
qed

text \<open>
  Claim C7. Let \<^verbatim>\<open>Path.resolve\<close> be idempotent, as it is: a resolved path resolves to
  itself. For every list of attachments and every inline-image map, in the message
  \<^verbatim>\<open>compose_email_message\<close> returns a plain attachment is the resolved path of a
  candidate and is no key of the map; so a candidate whose resolved path is a key of the
  map yields no plain attachment; and the path of an inline image belongs to exactly one
  part of the message.
\<close>

theorem inline_image_not_attached_again:
  assumes idem: "\<forall>p q. w_resolve w p = Inr q \<longrightarrow> w_resolve w q = Inr q"
    and c: "compose_email_message w fn u to cc subj body attachments d = (log, Inr msg)"
  shows "(\<forall>x\<in>set (m_parts msg). \<not> is_inline x \<longrightarrow>
            p_path x \<notin> fst ` set d \<and> (\<exists>p\<in>set attachments. w_resolve w p = Inr (p_path x)))
       \<and> (\<forall>p\<in>set attachments. \<forall>rp. w_resolve w p = Inr rp \<and> rp \<in> fst ` set d \<longrightarrow>
            (\<forall>x\<in>set (m_parts msg). p_path x = rp \<longrightarrow> is_inline x))
       \<and> (\<forall>x\<in>set (m_parts msg). is_inline x \<longrightarrow>
            length (filter (\<lambda>y. p_path y = p_path x) (m_parts msg)) = 1)"
proof -
  from c obtain ips inl att where
    ips: "inline_paths_set w d = Inr ips"
    and parts: "m_parts msg = inl @ att"
    and paths: "map p_path inl = filter (\<lambda>p. \<not> isl (w_read w p) \<and> map_of d p \<noteq> None) ips"
    and inl: "\<forall>x\<in>set inl. is_inline x \<and> w_read w (p_path x) = Inr (p_data x)
        \<and> map_of d (p_path x) = Some (p_cid x)"
    and att: "\<forall>x\<in>set att. \<not> is_inline x \<and> p_path x \<notin> set ips
        \<and> (\<exists>p\<in>set attachments. w_resolve w p = Inr (p_path x))
        \<and> w_read w (p_path x) = Inr (p_data x)"
    by (rule compose_parts)
  have key: "rp \<in> set ips" if "w_resolve w p = Inr rp" "rp \<in> fst ` set d" for p rp
  proof -
    from inline_paths_set_Inr(2) [OF ips that(2)]
    obtain rp' where "rp' \<in> set ips" "w_resolve w rp = Inr rp'" by (rule bexE)
    moreover from idem that(1) have "w_resolve w rp = Inr rp" by simp
    ultimately show ?thesis by simp
  qed
  have one: "\<forall>x\<in>set (m_parts msg). \<not> is_inline x \<longrightarrow>
            p_path x \<notin> fst ` set d \<and> (\<exists>p\<in>set attachments. w_resolve w p = Inr (p_path x))"
  proof (intro ballI impI)
    fix x assume "x \<in> set (m_parts msg)" "\<not> is_inline x"
    with parts inl have xa: "x \<in> set att" by auto
    with att obtain p where p: "p \<in> set attachments" "w_resolve w p = Inr (p_path x)"
      and n: "p_path x \<notin> set ips" by blast
    have "p_path x \<notin> fst ` set d"
    proof
      assume "p_path x \<in> fst ` set d"
      from key [OF p(2) this] n show False by simp
    qed
    moreover from p have "\<exists>p\<in>set attachments. w_resolve w p = Inr (p_path x)"
      by (rule bexI [rotated])
    ultimately
    show "p_path x \<notin> fst ` set d \<and> (\<exists>p\<in>set attachments. w_resolve w p = Inr (p_path x))"
      by (rule conjI)
  qed
  have two: "\<forall>p\<in>set attachments. \<forall>rp. w_resolve w p = Inr rp \<and> rp \<in> fst ` set d \<longrightarrow>
            (\<forall>x\<in>set (m_parts msg). p_path x = rp \<longrightarrow> is_inline x)"
  proof (intro ballI allI impI)
    fix p rp x
    assume "w_resolve w p = Inr rp \<and> rp \<in> fst ` set d" "x \<in> set (m_parts msg)" "p_path x = rp"
    then have m: "x \<in> set (m_parts msg)" and k: "p_path x \<in> fst ` set d" by simp_all
    show "is_inline x"
    proof (rule ccontr)
      assume "\<not> is_inline x"
      with one m have "p_path x \<notin> fst ` set d" by simp
      with k show False by simp
    qed
  qed
  have three: "\<forall>x\<in>set (m_parts msg). is_inline x \<longrightarrow>
            length (filter (\<lambda>y. p_path y = p_path x) (m_parts msg)) = 1"
  proof (intro ballI impI)
    fix x assume "x \<in> set (m_parts msg)" "is_inline x"
    with parts att have xi: "x \<in> set inl" by auto
    have d: "distinct (map p_path inl)"
      unfolding paths using inline_paths_set_Inr(1) [OF ips] by simp
    from xi have "p_path x \<in> set (map p_path inl)" by simp
    then have "p_path x \<in> set ips" unfolding paths by simp
    have "p_path y \<noteq> p_path x" if "y \<in> set att" for y
    proof
      assume "p_path y = p_path x"
      moreover from att that have "p_path y \<notin> set ips" by simp
      ultimately show False using \<open>p_path x \<in> set ips\<close> by simp
    qed
    then have "\<forall>y\<in>set att. p_path y \<noteq> p_path x" by simp
    then have "filter (\<lambda>y. p_path y = p_path x) att = []" by (simp add: filter_empty_conv)
    with filter_same_key [OF d xi] parts
    show "length (filter (\<lambda>y. p_path y = p_path x) (m_parts msg)) = 1" by simp
  qed
  show ?thesis by (rule conjI [OF one conjI [OF two three]])
qed

lemma sample_resolve_idem:
  "\<forall>p q. sample_resolve p = Inr q \<longrightarrow> sample_resolve q = Inr q"
  by (auto simp add: sample_resolve_def)

lemma passing_world_resolve: "w_resolve passing_world = sample_resolve"
  by (simp add: passing_world_def sample_world_def)

lemma sample_composed_value:
  "sample_composed =
     ([], Inr \<lparr>m_subject = ''Health check'', m_from = ([], ''bot@example.org''),
               m_to = ''ops@example.org'', m_cc = None, m_html = sample_body,
               m_parts = [InlinePart ''/work/a.png'' ''img0@local'' ''png'' ''PNG'',
                          AttachPart ''/work/b.png'' ''image'' ''png'' ''PNG'']\<rparr>)"
  by code_simp

theorem inline_image_not_attached_again_witness:
  "\<exists>msg. sample_composed = ([], Inr msg)
     \<and> map is_inline (m_parts msg) = [True, False]
     \<and> map p_path (m_parts msg) = [''/work/a.png'', ''/work/b.png'']
     \<and> length (filter (\<lambda>y. p_path y = ''/work/a.png'') (m_parts msg)) = 1"
proof -
  let ?msg = "\<lparr>m_subject = ''Health check'', m_from = ([], ''bot@example.org''),
               m_to = ''ops@example.org'', m_cc = None, m_html = sample_body,
               m_parts = [InlinePart ''/work/a.png'' ''img0@local'' ''png'' ''PNG'',
                          AttachPart ''/work/b.png'' ''image'' ''png'' ''PNG'']\<rparr>"
  have i: "\<forall>p q. w_resolve passing_world p = Inr q \<longrightarrow> w_resolve passing_world q = Inr q"
    unfolding passing_world_resolve by (rule sample_resolve_idem)
  have c: "compose_email_message passing_world [] ''bot@example.org'' (PyList [''ops@example.org'']) []
       ''Health check'' sample_body [''/work/a.png'', ''/work/b.png'']
       [(''/work/a.png'', ''img0@local'')] = ([], Inr ?msg)"
    using sample_composed_value by (simp add: sample_composed_def)
  from inline_image_not_attached_again [OF i c]
  have "\<forall>x\<in>set (m_parts ?msg). is_inline x \<longrightarrow>
            length (filter (\<lambda>y. p_path y = p_path x) (m_parts ?msg)) = 1"
    by (rule conjunct2 [THEN conjunct2])
  then have len: "length (filter (\<lambda>y. p_path y = ''/work/a.png'') (m_parts ?msg)) = 1"
    by simp
  show ?thesis
    apply (rule exI [of _ ?msg])
    using len sample_composed_value apply simp
    done
qed

section \<open>The default recipient\<close>

lemma default_to_header: "to_header DEFAULT_EMAIL_TO = ''T, O, _, E, M, A, I, L''"
  by (simp add: to_header_def DEFAULT_EMAIL_TO_def)

lemma letters_parsed:
  "getaddresses_plain [''T, O, _, E, M, A, I, L'']
     = Some [([], ''T''), ([], ''O''), ([], ''_''), ([], ''E''),
             ([], ''M''), ([], ''A''), ([], ''I''), ([], ''L'')]"
  by code_simp

text \<open>
  Claim C10. When \<^verbatim>\<open>--email-to\<close> is omitted the recipient value is the string
  \<^verbatim>\<open>TO_EMAIL\<close>, not a list; the To header of the composed message joins its characters
  and is \<^verbatim>\<open>T, O, _, E, M, A, I, L\<close>; an address-list parser that behaves as the
  library's on comma-separated atoms reads eight one-letter addresses from it, so the
  recipient list is not empty and \<^verbatim>\<open>send_via_smtp\<close> opens its SMTP session for them.
\<close>

theorem default_recipient_is_spelled_out:
  assumes omitted: "a_email_to a = None"
    and parser: "\<forall>vals r. getaddresses_plain vals = Some r \<longrightarrow> w_getaddresses w vals = r"
    and composed: "compose_email_message w fn u (email_to_of a) cc subj body atts d = (log, Inr msg)"
  shows "email_to_of a = PyStr ''TO_EMAIL''
       \<and> m_to msg = ''T, O, _, E, M, A, I, L''
       \<and> filter (\<lambda>addr. addr \<noteq> []) (map snd (w_getaddresses w [m_to msg]))
           = [''T'', ''O'', ''_'', ''E'', ''M'', ''A'', ''I'', ''L'']
       \<and> take 8 (recipients_of (w_getaddresses w) msg)
           = [''T'', ''O'', ''_'', ''E'', ''M'', ''A'', ''I'', ''L'']
       \<and> map (\<lambda>req. take 8 (q_recipients req)) (fst (snd (send_via_smtp w msg srv port u pw ssl)))
           = [[''T'', ''O'', ''_'', ''E'', ''M'', ''A'', ''I'', ''L'']]"
proof -
  have e: "email_to_of a = PyStr ''TO_EMAIL''"
    using omitted by (simp add: email_to_of_def DEFAULT_EMAIL_TO_def)
  from composed have "m_to msg = to_header (email_to_of a)"
    by (rule compose_parts)
  with e have t: "m_to msg = ''T, O, _, E, M, A, I, L''"
    using default_to_header by (simp add: DEFAULT_EMAIL_TO_def)
  from parser letters_parsed
  have g: "w_getaddresses w [''T, O, _, E, M, A, I, L'']
     = [([], ''T''), ([], ''O''), ([], ''_''), ([], ''E''),
        ([], ''M''), ([], ''A''), ([], ''I''), ([], ''L'')]"
    by blast
  have f: "filter (\<lambda>addr. addr \<noteq> []) (map snd (w_getaddresses w [m_to msg]))
           = [''T'', ''O'', ''_'', ''E'', ''M'', ''A'', ''I'', ''L'']"
    unfolding t g by simp
  have r: "take 8 (recipients_of (w_getaddresses w) msg)
           = [''T'', ''O'', ''_'', ''E'', ''M'', ''A'', ''I'', ''L'']"
    unfolding recipients_of_def f by simp
  then have n: "recipients_of (w_getaddresses w) msg \<noteq> []"
    by auto
  have s: "map (\<lambda>req. take 8 (q_recipients req)) (fst (snd (send_via_smtp w msg srv port u pw ssl)))
           = [[''T'', ''O'', ''_'', ''E'', ''M'', ''A'', ''I'', ''L'']]"
    using n r by (simp add: send_via_smtp_def Let_def)
  from e t f r s show ?thesis by simp
qed

lemma passing_world_parser:
  "\<forall>vals r. getaddresses_plain vals = Some r \<longrightarrow> w_getaddresses passing_world vals = r"
  by (simp add: passing_world_def sample_world_def)

lemma default_composed_value:
  "compose_email_message passing_world [] ''bot@example.org''
      (email_to_of (sample_args [''https://a.com/b?c=1''])) [] ''Health check'' sample_body [] []
     = ([], Inr \<lparr>m_subject = ''Health check'', m_from = ([], ''bot@example.org''),
               m_to = ''T, O, _, E, M, A, I, L'', m_cc = None, m_html = sample_body,
               m_parts = []\<rparr>)"
  by code_simp

theorem default_recipient_is_spelled_out_witness:
  "a_email_to (sample_args [''https://a.com/b?c=1'']) = None
   \<and> (\<exists>msg. compose_email_message passing_world [] ''bot@example.org''
          (email_to_of (sample_args [''https://a.com/b?c=1''])) [] ''Health check'' sample_body [] []
          = ([], Inr msg)
        \<and> m_to msg = ''T, O, _, E, M, A, I, L''
        \<and> map q_recipients (fst (snd (send_via_smtp passing_world msg ''smtp.gmail.com'' 587
             ''bot@example.org'' ''secret'' False)))
           = [[''T'', ''O'', ''_'', ''E'', ''M'', ''A'', ''I'', ''L'']])"
proof -
  let ?msg = "\<lparr>m_subject = ''Health check'', m_from = ([], ''bot@example.org''),
               m_to = ''T, O, _, E, M, A, I, L'', m_cc = None, m_html = sample_body,
               m_parts = []\<rparr>"
  have o: "a_email_to (sample_args [''https://a.com/b?c=1'']) = None"
    by (simp add: sample_args_def)
  have q: "map q_recipients (fst (snd (send_via_smtp passing_world ?msg ''smtp.gmail.com'' 587
             ''bot@example.org'' ''secret'' False)))
           = [[''T'', ''O'', ''_'', ''E'', ''M'', ''A'', ''I'', ''L'']]"
    by code_simp
  from default_recipient_is_spelled_out [OF o passing_world_parser default_composed_value]
  have "m_to ?msg = ''T, O, _, E, M, A, I, L''"
    by (rule conjunct2 [THEN conjunct1])
  with o q default_composed_value show ?thesis
    by (intro conjI exI [of _ ?msg]) simp_all
qed

section \<open>The exit status\<close>

lemma build_rows_total:
  "\<forall>p. \<not> isl (w_resolve w p) \<Longrightarrow> \<not> isl (build_rows w inline_images i rs acc)"
proof (induction rs arbitrary: i acc)
  case Nil
  show ?case by simp
next
  case (Cons r rs)
  obtain rows d where acc: "acc = (rows, d)" by (cases acc)
  show ?case
  proof (cases "shot_of r")
    case None
    with Cons acc show ?thesis by simp
  next
    case (Some shot)
    from Cons.prems have "\<not> isl (w_resolve w shot)" by simp
    then obtain rp where "w_resolve w shot = Inr rp"
      by (cases "w_resolve w shot") simp_all
    with Cons acc Some show ?thesis by (cases inline_images) simp_all
  qed
qed

lemma body_built_if_resolves: "\<forall>p. \<not> isl (w_resolve w p) \<Longrightarrow> body_built w a"
proof -
  assume r: "\<forall>p. \<not> isl (w_resolve w p)"
  have "\<not> isl (build_email_html_and_inline_map w rs ok inl)" for rs ok inl
  proof (cases "build_rows w inl 0 rs ([], [])")
    case (Inl e)
    with build_rows_total [OF r, of inl 0 rs "([], [])"] show ?thesis by simp
  next
    case (Inr x)
    then show ?thesis
      by (cases x) (simp add: build_email_html_and_inline_map_def)
  qed
  then show ?thesis by (simp add: body_built_def Let_def)
qed










section \<open>Failures of composing and sending\<close>







section \<open>Missing screenshot files\<close>















end
